theory Spec2Isabelle
  imports Complex_Main "HOL-Library.Log_Nat"
begin

section \<open>JavaScript numbers and \<^verbatim>\<open>parseFloat\<close>\<close>

text \<open>
  The row predicate of the plugin calls the built-in \<^verbatim>\<open>parseFloat\<close>, \<^verbatim>\<open>isNaN\<close>, \<^verbatim>\<open>||\<close>
  and \<^verbatim>\<open><=\<close> on Number values. A Number is an IEEE 754 binary64 value: not-a-number, an
  infinity, or a finite value, kept here as the rational it denotes (the sign of zero is
  dropped: no operation the plugin uses tells \<^verbatim>\<open>-0\<close> from \<^verbatim>\<open>0\<close>).
\<close>

datatype jsnum = NaN | NegInf | Fin rat | PosInf

definition pow2 :: "int \<Rightarrow> rat" where
  "pow2 k = (if 0 \<le> k then 2 ^ nat k else 1 / 2 ^ nat (- k))"

definition round_half_even :: "rat \<Rightarrow> int" where
  "round_half_even x =
     (let f = \<lfloor>x\<rfloor>; r = x - of_int f
      in if r < 1 / 2 then f
         else if 1 / 2 < r then f + 1
         else if even f then f else f + 1)"

text \<open>
  The Number value of a mathematical value: round to nearest, ties to even, with a
  significand \<open>m\<close> of at most 53 bits and an exponent \<open>e\<close> of the last bit between
  \<open>-1074\<close> (subnormals) and \<open>971\<close>; beyond that range the result is an infinity.
\<close>

definition binary64 :: "rat \<Rightarrow> jsnum" where
  "binary64 q =
     (if q = 0 then Fin 0
      else
        let a = \<bar>q\<bar>;
            k = bitlen (fst (quotient_of a)) - bitlen (snd (quotient_of a));
            e0 = (if pow2 k \<le> a then k else k - 1);
            e = max (e0 - 52) (- 1074);
            m = round_half_even (a / pow2 e)
        in if 971 < e \<or> (e = 971 \<and> 2 ^ 53 \<le> m) then (if q < 0 then NegInf else PosInf)
           else Fin ((if q < 0 then - 1 else 1) * of_int m * pow2 e))"

definition is_digit :: "char \<Rightarrow> bool" where
  "is_digit c = (c \<in> set ''0123456789'')"

definition digit_val :: "char \<Rightarrow> int" where
  "digit_val c = of_char c - 48"

definition digits_mv :: "string \<Rightarrow> int" where
  "digits_mv ds = foldl (\<lambda>n c. 10 * n + digit_val c) 0 ds"

text \<open>A character of a string is a code unit below 256. The white space and line
  terminators \<^verbatim>\<open>parseFloat\<close> skips are, among these, tab, line feed, vertical tab, form
  feed, carriage return, space and the no-break space.\<close>

definition is_space :: "char \<Rightarrow> bool" where
  "is_space c =
     (c \<in> set [CHR 0x09, CHR 0x0A, CHR 0x0B, CHR 0x0C, CHR 0x0D, CHR '' '', CHR 0xA0])"

datatype str_literal = NoLiteral | InfinityLiteral | DecimalLiteral rat

text \<open>The exponent part that follows the digits, when there is a complete one
  (\<^verbatim>\<open>e\<close> or \<^verbatim>\<open>E\<close>, an optional sign, at least one digit); otherwise the literal ends before it.\<close>

definition exponent_part :: "string \<Rightarrow> int" where
  "exponent_part s =
     (case s of
        [] \<Rightarrow> 0
      | c # r \<Rightarrow>
          if c = CHR ''e'' \<or> c = CHR ''E'' then
            (case r of
               [] \<Rightarrow> 0
             | d # r' \<Rightarrow>
                 if d = CHR ''+'' then
                   (if takeWhile is_digit r' = [] then 0 else digits_mv (takeWhile is_digit r'))
                 else if d = CHR ''-'' then
                   (if takeWhile is_digit r' = [] then 0 else - digits_mv (takeWhile is_digit r'))
                 else digits_mv (takeWhile is_digit r))
          else 0)"

text \<open>The longest prefix that is a \<^verbatim>\<open>StrUnsignedDecimalLiteral\<close> of ECMAScript, and its
  mathematical value: \<^verbatim>\<open>Infinity\<close>, or digits with an optional fraction and exponent.\<close>

definition str_unsigned_decimal :: "string \<Rightarrow> str_literal" where
  "str_unsigned_decimal s =
     (if take 8 s = ''Infinity'' then InfinityLiteral
      else
        let ip = takeWhile is_digit s;
            r1 = dropWhile is_digit s;
            dot = (r1 \<noteq> [] \<and> hd r1 = CHR ''.'');
            fp = (if dot then takeWhile is_digit (tl r1) else []);
            r2 = (if dot then dropWhile is_digit (tl r1) else r1)
        in if ip = [] \<and> fp = [] then NoLiteral
           else DecimalLiteral
                  ((of_int (digits_mv ip) + of_int (digits_mv fp) / 10 ^ length fp)
                   * (let x = exponent_part r2
                      in if 0 \<le> x then 10 ^ nat x else 1 / 10 ^ nat (- x))))"

definition parseFloat :: "string \<Rightarrow> jsnum" where
  "parseFloat s =
     (let t = dropWhile is_space s;
          neg = (t \<noteq> [] \<and> hd t = CHR ''-'');
          u = (if t \<noteq> [] \<and> (hd t = CHR ''-'' \<or> hd t = CHR ''+'') then tl t else t)
      in case str_unsigned_decimal u of
           NoLiteral \<Rightarrow> NaN
         | InfinityLiteral \<Rightarrow> (if neg then NegInf else PosInf)
         | DecimalLiteral q \<Rightarrow> binary64 (if neg then - q else q))"

definition isNaN :: "jsnum \<Rightarrow> bool" where
  "isNaN x = (x = NaN)"

text \<open>The operator \<^verbatim>\<open><=\<close> on Numbers: false as soon as one side is not-a-number.\<close>

fun js_le :: "jsnum \<Rightarrow> jsnum \<Rightarrow> bool" where
  "js_le NaN y = False"
| "js_le x NaN = False"
| "js_le NegInf y = True"
| "js_le x PosInf = True"
| "js_le PosInf y = False"
| "js_le x NegInf = False"
| "js_le (Fin a) (Fin b) = (a \<le> b)"

text \<open>\<^verbatim>\<open>x || 0\<close>: the falsy Numbers are not-a-number and zero.\<close>

definition or_zero :: "jsnum \<Rightarrow> jsnum" where
  "or_zero x = (if x = NaN \<or> x = Fin 0 then Fin 0 else x)"

text \<open>\<^verbatim>\<open>s.replace(a, b)\<close> with a string pattern replaces the first occurrence only.\<close>

fun replace_first :: "char \<Rightarrow> char \<Rightarrow> string \<Rightarrow> string" where
  "replace_first a b [] = []"
| "replace_first a b (c # cs) = (if c = a then b # cs else c # replace_first a b cs)"

text \<open>The normalisation in the words of the specification: every comma becomes a
  point. The code replaces the first comma only; \<open>bound_all_commas\<close> below shows that
  \<^verbatim>\<open>parseFloat\<close> cannot tell the difference.\<close>

definition comma_to_point :: "string \<Rightarrow> string" where
  "comma_to_point s = map (\<lambda>c. if c = CHR '','' then CHR ''.'' else c) s"

text \<open>The two characters at which a number that already has its decimal point ends.\<close>

definition stop :: "char \<Rightarrow> bool" where
  "stop c = (c = CHR '','' \<or> c = CHR ''.'')"

section \<open>The local number-range evaluator\<close>

text \<open>Lines 211 to 214 of the plugin: the two bounds are read from the inputs, the cell
  from the row's search data.\<close>

definition bound :: "string \<Rightarrow> jsnum" where
  "bound s = parseFloat (replace_first CHR '','' CHR ''.'' s)"

definition cell_value :: "string \<Rightarrow> jsnum" where
  "cell_value cell = or_zero (parseFloat cell)"

definition matches :: "string \<Rightarrow> string \<Rightarrow> string \<Rightarrow> bool" where
  "matches from to cell =
     (let vmin = bound from; vmax = bound to; v = cell_value cell
      in (isNaN vmin \<and> isNaN vmax) \<or> (isNaN vmin \<and> js_le v vmax)
         \<or> (js_le vmin v \<and> isNaN vmax) \<or> (js_le vmin v \<and> js_le v vmax))"

text \<open>\<^verbatim>\<open>data[ci]\<close> as \<^verbatim>\<open>parseFloat\<close> sees it: past the end of the array it is
  \<^verbatim>\<open>undefined\<close>, whose string is not a number.\<close>

definition cell_text :: "string list \<Rightarrow> nat \<Rightarrow> string" where
  "cell_text data ci = (if ci < length data then data ! ci else ''undefined'')"

section \<open>The filter row at run time\<close>

text \<open>
  An input of the filter row: what \<^verbatim>\<open>$(this).val()\<close> reads and what
  \<^verbatim>\<open>$(this).data('val')\<close> holds (\<open>None\<close> for \<^verbatim>\<open>undefined\<close>). An input is addressed by
  its column and its position inside the column's \<^verbatim>\<open>th\<close>: the text input, the select and
  the lower bound are at position 0, the upper bound at position 1.
\<close>

record input =
  val :: string
  data_val :: "string option"

text \<open>The calls the plugin makes on its host, DataTables and the browser's timers.\<close>

datatype call =
    Search nat string bool
  | ClearTimeout nat
  | SetTimeout nat nat
  | Draw

text \<open>
  The state the handlers read and write: the inputs, \<^verbatim>\<open>tr.data('timeout')\<close>, the host's
  search slot of every column, the browser's pending timers (handle and the time each is
  due; the callback of every timer of the plugin is \<^verbatim>\<open>api.draw()\<close>), the next timer handle,
  and the host calls made so far, each with the time it was made at.
\<close>

record state =
  clock :: nat
  inputs :: "nat \<times> nat \<Rightarrow> input"
  tr_timeout :: "nat option"
  column_search :: "nat \<Rightarrow> string"
  timers :: "(nat \<times> nat) list"
  next_handle :: nat
  calls :: "(nat \<times> call) list"

text \<open>\<^verbatim>\<open>api.column(ci).search(v)\<close> and \<^verbatim>\<open>api.column(ci).search(v, true)\<close>; the flag is
  \<open>False\<close> when the second argument is absent.\<close>

definition api_column_search :: "nat \<Rightarrow> string \<Rightarrow> bool \<Rightarrow> state \<Rightarrow> state" where
  "api_column_search ci v regex st =
     st\<lparr>column_search := (column_search st)(ci := v),
        calls := calls st @ [(clock st, Search ci v regex)]\<rparr>"

definition api_draw :: "state \<Rightarrow> state" where
  "api_draw st = st\<lparr>calls := calls st @ [(clock st, Draw)]\<rparr>"

definition clearTimeout :: "nat \<Rightarrow> state \<Rightarrow> state" where
  "clearTimeout h st =
     st\<lparr>timers := filter (\<lambda>t. fst t \<noteq> h) (timers st),
        calls := calls st @ [(clock st, ClearTimeout h)]\<rparr>"

text \<open>\<^verbatim>\<open>setTimeout(f, delay)\<close> returns the handle \<open>next_handle\<close> of the state it is
  called in.\<close>

definition setTimeout :: "nat \<Rightarrow> state \<Rightarrow> state" where
  "setTimeout delay st =
     st\<lparr>timers := timers st @ [(next_handle st, clock st + delay)],
        next_handle := Suc (next_handle st),
        calls := calls st @ [(clock st, SetTimeout (next_handle st) delay)]\<rparr>"

text \<open>Lines 126 to 131 (the same in every debounced handler): a truthy
  \<^verbatim>\<open>tr.data('timeout')\<close> is cleared, then a timer of 500 is set and its handle stored.\<close>

definition schedule_draw :: "state \<Rightarrow> state" where
  "schedule_draw st =
     (let st1 = (case tr_timeout st of
                   None \<Rightarrow> st
                 | Some h \<Rightarrow> if h \<noteq> 0 then clearTimeout h st else st)
      in (setTimeout 500 st1)\<lparr>tr_timeout := Some (next_handle st1)\<rparr>)"

definition set_data_val :: "nat \<times> nat \<Rightarrow> string \<Rightarrow> state \<Rightarrow> state" where
  "set_data_val i v st = st\<lparr>inputs := (inputs st)(i := (inputs st i)\<lparr>data_val := Some v\<rparr>)\<rparr>"

subsection \<open>Text\<close>

definition text_val :: "bool \<Rightarrow> string \<Rightarrow> string" where
  "text_val serverSide v = (if serverSide \<and> v \<noteq> [] then ''like:'' @ v else v)"

definition text_handler :: "bool \<Rightarrow> nat \<Rightarrow> state \<Rightarrow> state" where
  "text_handler serverSide ci st =
     (let v = val (inputs st (ci, 0))
      in if data_val (inputs st (ci, 0)) \<noteq> Some v then
           schedule_draw
             (api_column_search ci (text_val serverSide v) False (set_data_val (ci, 0) v st))
         else st)"

subsection \<open>Select\<close>

text \<open>
  Modelled from the spec: \<^verbatim>\<open>$.fn.dataTable.util.escapeRegex\<close> belongs to the host
  library and is not part of this repository. The spec says it escapes all regex
  metacharacters in the value so that the value is treated as a literal; the characters
  are the host's list, each of them prefixed with a backslash.
\<close>

definition regex_meta :: "char \<Rightarrow> bool" where
  "regex_meta c = (c \<in> set (''/.*+?|()[]{}$^-'' @ [CHR 0x5C]))"

definition escapeRegex :: "string \<Rightarrow> string" where
  "escapeRegex s = concat (map (\<lambda>c. if regex_meta c then [CHR 0x5C, c] else [c]) s)"

definition select_val :: "bool \<Rightarrow> string \<Rightarrow> string" where
  "select_val serverSide v =
     (if serverSide \<and> v \<noteq> [] then ''equals:'' @ v
      else if v \<noteq> [] then ''^'' @ v @ ''$''
      else v)"

definition select_handler :: "bool \<Rightarrow> nat \<Rightarrow> state \<Rightarrow> state" where
  "select_handler serverSide ci st =
     (let v = escapeRegex (val (inputs st (ci, 0)))
      in if data_val (inputs st (ci, 0)) \<noteq> Some v then
           schedule_draw
             (api_column_search ci (select_val serverSide v) True (set_data_val (ci, 0) v st))
         else st)"

subsection \<open>Number range\<close>

definition range_val :: "string \<Rightarrow> string \<Rightarrow> string" where
  "range_val valFrom valTo =
     (if valFrom \<noteq> [] \<or> valTo \<noteq> [] then ''range:'' @ valFrom @ ''~'' @ valTo else [])"

text \<open>The two handlers of the remote mode (lines 166 to 203): each reads its own value
  and its sibling's, and keeps its own memo.\<close>

definition range_handler :: "nat \<Rightarrow> nat \<Rightarrow> state \<Rightarrow> state" where
  "range_handler ci k st =
     (let v = range_val (val (inputs st (ci, 0))) (val (inputs st (ci, 1)))
      in if data_val (inputs st (ci, k)) \<noteq> Some v then
           schedule_draw (api_column_search ci v False (set_data_val (ci, k) v st))
         else st)"

text \<open>The row predicate pushed to \<^verbatim>\<open>$.fn.dataTable.ext.search\<close> in local mode (lines
  206 to 216), closed over the column, the table node and the two inputs. Table nodes
  are compared by identity; a number stands for a node.\<close>

definition range_search :: "nat \<Rightarrow> nat \<Rightarrow> state \<Rightarrow> nat \<Rightarrow> string list \<Rightarrow> bool" where
  "range_search ci nTable st settings_nTable data =
     (if settings_nTable \<noteq> nTable then False
      else matches (val (inputs st (ci, 0))) (val (inputs st (ci, 1))) (cell_text data ci))"

subsection \<open>Events\<close>

datatype control = TextInput | SelectInput "(string \<times> string) list" | NumberRange

text \<open>The handler bound to the input at position \<open>k\<close> of column \<open>ci\<close>; \<open>th\<close> gives the
  control rendered in each column's cell. In local mode both inputs of a number range
  are bound to \<^verbatim>\<open>api.draw()\<close> (lines 218 to 220).\<close>

definition has_input :: "(nat \<Rightarrow> control option) \<Rightarrow> nat \<Rightarrow> nat \<Rightarrow> bool" where
  "has_input th ci k =
     (case th ci of
        None \<Rightarrow> False
      | Some TextInput \<Rightarrow> k = 0
      | Some (SelectInput opts) \<Rightarrow> k = 0
      | Some NumberRange \<Rightarrow> k < 2)"

definition handler :: "bool \<Rightarrow> (nat \<Rightarrow> control option) \<Rightarrow> nat \<Rightarrow> nat \<Rightarrow> state \<Rightarrow> state" where
  "handler serverSide th ci k st =
     (case th ci of
        None \<Rightarrow> st
      | Some TextInput \<Rightarrow> text_handler serverSide ci st
      | Some (SelectInput opts) \<Rightarrow> select_handler serverSide ci st
      | Some NumberRange \<Rightarrow> if serverSide then range_handler ci k st else api_draw st)"

definition set_val :: "nat \<times> nat \<Rightarrow> string \<Rightarrow> state \<Rightarrow> state" where
  "set_val i v st = st\<lparr>inputs := (inputs st)(i := (inputs st i)\<lparr>val := v\<rparr>)\<rparr>"

text \<open>One delivery of a raw value: the input holds \<open>v\<close> when its \<^verbatim>\<open>input\<close> or
  \<^verbatim>\<open>change\<close> event runs the handler.\<close>

definition deliver :: "bool \<Rightarrow> (nat \<Rightarrow> control option) \<Rightarrow> nat \<Rightarrow> nat \<Rightarrow> string \<Rightarrow> state \<Rightarrow> state" where
  "deliver serverSide th ci k v st =
     (if has_input th ci k then handler serverSide th ci k (set_val (ci, k) v st) else st)"

text \<open>Time passes: every timer that is due by the new time runs its callback
  \<^verbatim>\<open>api.draw()\<close> at the time it is due (timers are listed in the order they were set, which
  is the order they are due in, every delay being 500).\<close>

definition elapse :: "nat \<Rightarrow> state \<Rightarrow> state" where
  "elapse dt st =
     st\<lparr>clock := clock st + dt,
        timers := filter (\<lambda>t. clock st + dt < snd t) (timers st),
        calls := calls st @ map (\<lambda>t. (snd t, Draw)) (filter (\<lambda>t. snd t \<le> clock st + dt) (timers st))\<rparr>"

datatype event = Deliver nat nat string | Elapse nat

fun step :: "bool \<Rightarrow> (nat \<Rightarrow> control option) \<Rightarrow> event \<Rightarrow> state \<Rightarrow> state" where
  "step serverSide th (Deliver ci k v) st = deliver serverSide th ci k v st"
| "step serverSide th (Elapse dt) st = elapse dt st"

fun run :: "bool \<Rightarrow> (nat \<Rightarrow> control option) \<Rightarrow> event list \<Rightarrow> state \<Rightarrow> state" where
  "run serverSide th [] st = st"
| "run serverSide th (e # es) st = run serverSide th es (step serverSide th e st)"

text \<open>The value a debounced handler compares with its memo, and whether the delivery
  of \<open>v\<close> passes that comparison.\<close>

definition memo_val :: "bool \<Rightarrow> (nat \<Rightarrow> control option) \<Rightarrow> nat \<Rightarrow> state \<Rightarrow> string" where
  "memo_val serverSide th ci st =
     (case th ci of
        Some NumberRange \<Rightarrow> range_val (val (inputs st (ci, 0))) (val (inputs st (ci, 1)))
      | Some (SelectInput opts) \<Rightarrow> escapeRegex (val (inputs st (ci, 0)))
      | _ \<Rightarrow> val (inputs st (ci, 0)))"

definition debounced :: "bool \<Rightarrow> (nat \<Rightarrow> control option) \<Rightarrow> nat \<Rightarrow> nat \<Rightarrow> bool" where
  "debounced serverSide th ci k =
     (has_input th ci k \<and> (if th ci = Some NumberRange then serverSide else True))"

definition effective :: "bool \<Rightarrow> (nat \<Rightarrow> control option) \<Rightarrow> nat \<Rightarrow> nat \<Rightarrow> string \<Rightarrow> state \<Rightarrow> bool" where
  "effective serverSide th ci k v st =
     (data_val (inputs st (ci, k)) \<noteq> Some (memo_val serverSide th ci (set_val (ci, k) v st)))"

text \<open>The times of the redraws and of the search-slot updates among host calls, and the
  number of timers set.\<close>

definition draw_times :: "(nat \<times> call) list \<Rightarrow> nat list" where
  "draw_times cs = map fst (filter (\<lambda>c. snd c = Draw) cs)"

fun is_search :: "call \<Rightarrow> bool" where
  "is_search (Search ci v regex) = True"
| "is_search c = False"

fun is_set_timeout :: "call \<Rightarrow> bool" where
  "is_set_timeout (SetTimeout h d) = True"
| "is_set_timeout c = False"

definition search_times :: "(nat \<times> call) list \<Rightarrow> nat list" where
  "search_times cs = map fst (filter (\<lambda>c. is_search (snd c)) cs)"

definition timers_set :: "(nat \<times> call) list \<Rightarrow> nat" where
  "timers_set cs = length (filter (\<lambda>c. is_set_timeout (snd c)) cs)"

text \<open>The state right after setup: empty inputs, the memo of the two range inputs set
  to the empty string (lines 163 and 164), no timer, empty search slots.\<close>

definition init_state :: "(nat \<Rightarrow> control option) \<Rightarrow> state" where
  "init_state th =
     \<lparr>clock = 0,
      inputs = (\<lambda>i. \<lparr>val = [], data_val = (if th (fst i) = Some NumberRange then Some [] else None)\<rparr>),
      tr_timeout = None,
      column_search = (\<lambda>ci. []),
      timers = [],
      next_handle = 1,
      calls = []\<rparr>"

section \<open>Setup\<close>

text \<open>
  A column of \<^verbatim>\<open>settings.aoColumns\<close> as the constructor reads it: its \<^verbatim>\<open>orbiaColumnFilter\<close>
  option (the \<^verbatim>\<open>type\<close> string and the \<^verbatim>\<open>values\<close> of a select), whether it is searchable and
  whether it is visible. The index of a column is its position in the list.
\<close>

record filter_item =
  ftype :: string
  fvalues :: "(string \<times> string) list"

record column =
  orbiaColumnFilter :: "filter_item option"
  bSearchable :: bool
  visible :: bool

text \<open>
  Line 226 reads two identifiers that the plugin never declares, \<^verbatim>\<open>console\<close> and
  \<^verbatim>\<open>value\<close>; they resolve in the global scope of the page. \<open>None\<close> is an identifier that is
  not declared there: reading it throws a \<^verbatim>\<open>ReferenceError\<close>. A declared \<^verbatim>\<open>console\<close> is
  kept as its truth value, a declared \<^verbatim>\<open>value\<close> as its string.
\<close>

record globals =
  console_var :: "bool option"
  value_var :: "string option"

datatype error = ReferenceError string

text \<open>What setup has built so far: the cells of the filter row (column index and the
  control inside, if any), the row predicates pushed to \<^verbatim>\<open>ext.search\<close> (column and table
  node), and the warnings written to the console.\<close>

record filter_row =
  cells :: "(nat \<times> control option) list"
  ext_search :: "(nat \<times> nat) list"
  warnings :: "string list"

text \<open>Lines 98 to 102: the item of a column is its filter option when the column is
  searchable, \<^verbatim>\<open>null\<close> otherwise.\<close>

definition item_of :: "column \<Rightarrow> filter_item option" where
  "item_of c = (if orbiaColumnFilter c \<noteq> None \<and> bSearchable c then orbiaColumnFilter c else None)"

text \<open>Line 226, the \<^verbatim>\<open>default\<close> branch of the switch:
  \<^verbatim>\<open>console && console.warn('Invalid orbiaColumnFilter type for column ' + value + '.')\<close>.\<close>

definition default_branch :: "globals \<Rightarrow> filter_row \<Rightarrow> error + filter_row" where
  "default_branch g r =
     (case console_var g of
        None \<Rightarrow> Inl (ReferenceError ''console'')
      | Some False \<Rightarrow> Inr r
      | Some True \<Rightarrow>
          (case value_var g of
             None \<Rightarrow> Inl (ReferenceError ''value'')
           | Some s \<Rightarrow>
               Inr (r\<lparr>warnings := warnings r
                         @ [''Invalid orbiaColumnFilter type for column '' @ s @ ''.'']\<rparr>)))"

definition add_cell :: "nat \<Rightarrow> control option \<Rightarrow> filter_row \<Rightarrow> filter_row" where
  "add_cell ci c r = r\<lparr>cells := cells r @ [(ci, c)]\<rparr>"

text \<open>Lines 111 to 230, the body of the loop over the columns: the switch on the type of
  the item, then \<^verbatim>\<open>th.appendTo(tr)\<close>. An exception leaves the loop and the constructor.\<close>

definition render_column ::
  "globals \<Rightarrow> bool \<Rightarrow> nat \<Rightarrow> nat \<Rightarrow> column \<Rightarrow> filter_row \<Rightarrow> error + filter_row" where
  "render_column g serverSide nTable ci c r =
     (if visible c then
        (case item_of c of
           None \<Rightarrow> Inr (add_cell ci None r)
         | Some item \<Rightarrow>
             if ftype item = ''text'' then Inr (add_cell ci (Some TextInput) r)
             else if ftype item = ''select'' then
               Inr (add_cell ci (Some (SelectInput (([], []) # fvalues item))) r)
             else if ftype item = ''number-range'' then
               Inr (add_cell ci (Some NumberRange)
                      (if serverSide then r else r\<lparr>ext_search := ext_search r @ [(ci, nTable)]\<rparr>))
             else
               (case default_branch g r of
                  Inl e \<Rightarrow> Inl e
                | Inr r' \<Rightarrow> Inr (add_cell ci None r')))
      else Inr r)"

fun render_columns ::
  "globals \<Rightarrow> bool \<Rightarrow> nat \<Rightarrow> nat \<Rightarrow> column list \<Rightarrow> filter_row \<Rightarrow> error + filter_row" where
  "render_columns g serverSide nTable ci [] r = Inr r"
| "render_columns g serverSide nTable ci (c # cs) r =
     (case render_column g serverSide nTable ci c r of
        Inl e \<Rightarrow> Inl e
      | Inr r' \<Rightarrow> render_columns g serverSide nTable (Suc ci) cs r')"

text \<open>The constructor (lines 90 to 245): nothing is built unless some column has an
  item; otherwise the row is built column by column and attached to the table.\<close>

definition OrbiaColumnFilter ::
  "globals \<Rightarrow> bool \<Rightarrow> nat \<Rightarrow> column list \<Rightarrow> error + filter_row option" where
  "OrbiaColumnFilter g serverSide nTable aoColumns =
     (if list_ex (\<lambda>c. item_of c \<noteq> None) aoColumns then
        (case render_columns g serverSide nTable 0 aoColumns
                \<lparr>cells = [], ext_search = [], warnings = []\<rparr> of
           Inl e \<Rightarrow> Inl e
         | Inr r \<Rightarrow> Inr (Some r))
      else Inr None)"

text \<open>The global scope of a browser page that declares no variable \<^verbatim>\<open>value\<close>.\<close>

definition browser :: globals where
  "browser = \<lparr>console_var = Some True, value_var = None\<rparr>"

text \<open>The control of each column in a row that setup has built.\<close>

definition th_of :: "filter_row \<Rightarrow> nat \<Rightarrow> control option" where
  "th_of r ci = (case map_of (cells r) ci of None \<Rightarrow> None | Some c \<Rightarrow> c)"

text \<open>What a debounced handler does once the comparison with the memo has passed: it
  stores the memo \<open>m\<close>, pushes \<open>p\<close> to the search slot and schedules the redraw; \<open>pushed\<close> is
  the value pushed for a memo.\<close>

definition apply_val :: "nat \<Rightarrow> nat \<Rightarrow> string \<Rightarrow> string \<Rightarrow> bool \<Rightarrow> state \<Rightarrow> state" where
  "apply_val ci k m p regex st =
     schedule_draw (api_column_search ci p regex (set_data_val (ci, k) m st))"

definition pushed :: "bool \<Rightarrow> (nat \<Rightarrow> control option) \<Rightarrow> nat \<Rightarrow> string \<Rightarrow> string" where
  "pushed serverSide th ci m =
     (case th ci of
        Some NumberRange \<Rightarrow> m
      | Some (SelectInput opts) \<Rightarrow> select_val serverSide m
      | _ \<Rightarrow> text_val serverSide m)"

section \<open>Bursts of edits\<close>

text \<open>An edit is a delivery after a gap of time: the gap, the column, the position of
  the input and the raw value. A burst runs edits one after the other.\<close>

fun burst ::
  "bool \<Rightarrow> (nat \<Rightarrow> control option) \<Rightarrow> (nat \<times> nat \<times> nat \<times> string) list \<Rightarrow> state \<Rightarrow> state" where
  "burst serverSide th [] st = st"
| "burst serverSide th ((gap, ci, k, v) # es) st =
     burst serverSide th es (deliver serverSide th ci k v (elapse gap st))"

text \<open>Every edit of the burst goes to a debounced input and passes the comparison with
  the memo at the time it is delivered.\<close>

fun effective_burst ::
  "bool \<Rightarrow> (nat \<Rightarrow> control option) \<Rightarrow> (nat \<times> nat \<times> nat \<times> string) list \<Rightarrow> state \<Rightarrow> bool" where
  "effective_burst serverSide th [] st = True"
| "effective_burst serverSide th ((gap, ci, k, v) # es) st =
     (debounced serverSide th ci k \<and> effective serverSide th ci k v (elapse gap st)
      \<and> effective_burst serverSide th es (deliver serverSide th ci k v (elapse gap st)))"

text \<open>The times at which the edits of a burst that starts at time \<open>t\<close> are delivered.\<close>

fun edit_times :: "nat \<Rightarrow> (nat \<times> nat \<times> nat \<times> string) list \<Rightarrow> nat list" where
  "edit_times t [] = []"
| "edit_times t (e # es) = (t + fst e) # edit_times (t + fst e) es"

section \<open>Invariants\<close>

text \<open>The timers of a filter row are in order when none or one is pending, and the
  pending one is the one \<^verbatim>\<open>tr.data('timeout')\<close> names, not yet due and due within 500.
  Timer handles are positive, as the browser's are.\<close>

definition timer_inv :: "state \<Rightarrow> bool" where
  "timer_inv st =
     (0 < next_handle st \<and>
      (case timers st of
         [] \<Rightarrow> True
       | t # ts \<Rightarrow> ts = [] \<and> tr_timeout st = Some (fst t) \<and> fst t \<noteq> 0
                  \<and> clock st < snd t \<and> snd t \<le> clock st + 500))"




section \<open>Properties\<close>

subsection \<open>What \<^verbatim>\<open>parseFloat\<close> reads\<close>

lemma stop_simps:
  "stop c \<Longrightarrow> \<not> is_digit c"
  "stop c \<Longrightarrow> \<not> is_space c"
  "stop c \<Longrightarrow> c \<noteq> CHR ''e''"
  "stop c \<Longrightarrow> c \<noteq> CHR ''E''"
  "stop c \<Longrightarrow> c \<noteq> CHR ''+''"
  "stop c \<Longrightarrow> c \<noteq> CHR ''-''"
  by (auto simp add: stop_def is_digit_def is_space_def)

lemma takeWhile_stop: "\<not> P c \<Longrightarrow> takeWhile P (p @ c # w) = takeWhile P p"
  by (induction p) simp_all

lemma dropWhile_stop: "\<not> P c \<Longrightarrow> dropWhile P (p @ c # w) = dropWhile P p @ c # w"
  by (induction p) simp_all

lemma exponent_part_stop:
  assumes "stop c" and "stop c'"
  shows "exponent_part (b @ c # z) = exponent_part (b @ c' # z')"
proof (cases b)
  case Nil
  with assms show ?thesis by (simp add: exponent_part_def stop_simps)
next
  case (Cons x b1)
  show ?thesis
  proof (cases b1)
    case Nil
    with Cons assms show ?thesis by (simp add: exponent_part_def stop_simps)
  next
    case (Cons d b2)
    have t: "takeWhile is_digit (b2 @ c # z) = takeWhile is_digit (b2 @ c' # z')"
      "takeWhile is_digit (d # b2 @ c # z) = takeWhile is_digit (d # b2 @ c' # z')"
      using assms by (simp_all add: takeWhile_stop stop_simps)
    show ?thesis
      unfolding \<open>b = x # b1\<close> Cons
      by (simp add: exponent_part_def t del: takeWhile.simps)
  qed
qed

lemma take_Infinity:
  "(take 8 (q @ CHR ''.'' # w) = ''Infinity'') = (take 8 (q @ CHR ''.'' # w') = ''Infinity'')"
proof (cases "8 \<le> length q")
  case True
  then show ?thesis by simp
next
  case False
  then obtain n where n: "8 - length q = Suc n"
    by (cases "8 - length q") simp_all
  have "CHR ''.'' \<in> set (take 8 (q @ CHR ''.'' # x))" for x
    by (simp add: n)
  moreover have "CHR ''.'' \<notin> set ''Infinity''"
    by simp
  ultimately have "take 8 (q @ CHR ''.'' # x) \<noteq> ''Infinity''" for x
    by metis
  then show ?thesis by blast
qed

lemma str_unsigned_decimal_stop:
  assumes "stop c" and "stop c'"
  shows "str_unsigned_decimal (q @ CHR ''.'' # a @ c # z)
       = str_unsigned_decimal (q @ CHR ''.'' # a @ c' # z')"
proof -
  let ?w = "a @ c # z" and ?w' = "a @ c' # z'"
  have nd: "\<not> is_digit CHR ''.''"
    by (simp add: is_digit_def)
  have ip: "takeWhile is_digit (q @ CHR ''.'' # w) = takeWhile is_digit q" for w
    using nd by (rule takeWhile_stop)
  have r1: "dropWhile is_digit (q @ CHR ''.'' # w) = dropWhile is_digit q @ CHR ''.'' # w" for w
    using nd by (rule dropWhile_stop)
  show ?thesis
  proof (cases "dropWhile is_digit q")
    case Nil
    have fp: "takeWhile is_digit ?w = takeWhile is_digit ?w'"
      using assms by (simp add: takeWhile_stop stop_simps)
    have r2: "exponent_part (dropWhile is_digit ?w) = exponent_part (dropWhile is_digit ?w')"
      using assms by (simp add: dropWhile_stop stop_simps exponent_part_stop [OF assms])
    show ?thesis
      unfolding str_unsigned_decimal_def
      by (simp add: take_Infinity [of q ?w ?w'] ip r1 Nil fp r2 Let_def
          del: takeWhile_append dropWhile_append take_append)
  next
    case (Cons x q')
    show ?thesis
    proof (cases "x = CHR ''.''")
      case True
      have fp: "takeWhile is_digit (q' @ CHR ''.'' # w) = takeWhile is_digit q'" for w
        using nd by (rule takeWhile_stop)
      have r2: "exponent_part (dropWhile is_digit (q' @ CHR ''.'' # ?w))
              = exponent_part (dropWhile is_digit (q' @ CHR ''.'' # ?w'))"
        using nd by (simp add: dropWhile_stop exponent_part_stop [of "CHR ''.''" "CHR ''.''"] stop_def)
      show ?thesis
        unfolding str_unsigned_decimal_def
        by (simp add: take_Infinity [of q ?w ?w'] ip r1 Cons True fp r2 Let_def
            del: takeWhile_append dropWhile_append take_append)
    next
      case False
      have r2: "exponent_part (x # q' @ CHR ''.'' # ?w) = exponent_part (x # q' @ CHR ''.'' # ?w')"
        using exponent_part_stop [of "CHR ''.''" "CHR ''.''" "x # q'" ?w ?w']
        by (simp add: stop_def)
      show ?thesis
        unfolding str_unsigned_decimal_def
        by (simp add: take_Infinity [of q ?w ?w'] ip r1 Cons False r2 Let_def
            del: takeWhile_append dropWhile_append take_append)
    qed
  qed
qed

lemma parseFloat_stop:
  assumes "stop c" and "stop c'"
  shows "parseFloat (p @ CHR ''.'' # a @ c # z) = parseFloat (p @ CHR ''.'' # a @ c' # z')"
proof -
  let ?w = "a @ c # z" and ?w' = "a @ c' # z'"
  have sp: "dropWhile is_space (p @ CHR ''.'' # w) = dropWhile is_space p @ CHR ''.'' # w" for w
    by (rule dropWhile_stop) (simp add: is_space_def)
  show ?thesis
  proof (cases "dropWhile is_space p")
    case Nil
    from str_unsigned_decimal_stop [OF assms, of "[]" a z z']
    show ?thesis
      unfolding parseFloat_def sp Nil by (simp add: Let_def cong: str_literal.case_cong)
  next
    case (Cons x p')
    from str_unsigned_decimal_stop [OF assms, of "p'" a z z']
      str_unsigned_decimal_stop [OF assms, of "x # p'" a z z']
    show ?thesis
      unfolding parseFloat_def sp Cons by (simp add: Let_def cong: str_literal.case_cong)
  qed
qed

lemma comma_to_point_split:
  "comma_to_point x = x \<or> (\<exists>a z. x = a @ CHR '','' # z \<and> comma_to_point x = a @ CHR ''.'' # comma_to_point z)"
proof (induction x)
  case Nil
  then show ?case by (simp add: comma_to_point_def)
next
  case (Cons c cs)
  show ?case
  proof (cases "c = CHR '',''")
    case True
    then have "c # cs = [] @ CHR '','' # cs \<and> comma_to_point (c # cs) = [] @ CHR ''.'' # comma_to_point cs"
      by (simp add: comma_to_point_def)
    then show ?thesis by blast
  next
    case False
    from Cons.IH show ?thesis
    proof
      assume "comma_to_point cs = cs"
      with False show ?thesis by (simp add: comma_to_point_def)
    next
      assume "\<exists>a z. cs = a @ CHR '','' # z \<and> comma_to_point cs = a @ CHR ''.'' # comma_to_point z"
      then obtain a z where "cs = a @ CHR '','' # z" and "comma_to_point cs = a @ CHR ''.'' # comma_to_point z"
        by blast
      with False have "c # cs = (c # a) @ CHR '','' # z
          \<and> comma_to_point (c # cs) = (c # a) @ CHR ''.'' # comma_to_point z"
        by (simp add: comma_to_point_def)
      then show ?thesis by blast
    qed
  qed
qed

lemma replace_first_split:
  "(replace_first CHR '','' CHR ''.'' s = s \<and> comma_to_point s = s)
   \<or> (\<exists>p x. replace_first CHR '','' CHR ''.'' s = p @ CHR ''.'' # x
          \<and> comma_to_point s = p @ CHR ''.'' # comma_to_point x)"
proof (induction s)
  case Nil
  then show ?case by (simp add: comma_to_point_def)
next
  case (Cons c cs)
  show ?case
  proof (cases "c = CHR '',''")
    case True
    then have "replace_first CHR '','' CHR ''.'' (c # cs) = [] @ CHR ''.'' # cs
        \<and> comma_to_point (c # cs) = [] @ CHR ''.'' # comma_to_point cs"
      by (simp add: comma_to_point_def)
    then show ?thesis by blast
  next
    case False
    from Cons.IH show ?thesis
    proof
      assume "replace_first CHR '','' CHR ''.'' cs = cs \<and> comma_to_point cs = cs"
      with False show ?thesis by (simp add: comma_to_point_def)
    next
      assume "\<exists>p x. replace_first CHR '','' CHR ''.'' cs = p @ CHR ''.'' # x
          \<and> comma_to_point cs = p @ CHR ''.'' # comma_to_point x"
      then obtain p x where "replace_first CHR '','' CHR ''.'' cs = p @ CHR ''.'' # x"
        and "comma_to_point cs = p @ CHR ''.'' # comma_to_point x"
        by blast
      with False have "replace_first CHR '','' CHR ''.'' (c # cs) = (c # p) @ CHR ''.'' # x
          \<and> comma_to_point (c # cs) = (c # p) @ CHR ''.'' # comma_to_point x"
        by (simp add: comma_to_point_def)
      then show ?thesis by blast
    qed
  qed
qed

lemma bound_all_commas: "bound s = parseFloat (comma_to_point s)"
proof -
  from replace_first_split [of s] show ?thesis
  proof
    assume "replace_first CHR '','' CHR ''.'' s = s \<and> comma_to_point s = s"
    then show ?thesis by (simp add: bound_def)
  next
    assume "\<exists>p x. replace_first CHR '','' CHR ''.'' s = p @ CHR ''.'' # x
          \<and> comma_to_point s = p @ CHR ''.'' # comma_to_point x"
    then obtain p x where rf: "replace_first CHR '','' CHR ''.'' s = p @ CHR ''.'' # x"
      and ct: "comma_to_point s = p @ CHR ''.'' # comma_to_point x"
      by blast
    from comma_to_point_split [of x] show ?thesis
    proof
      assume "comma_to_point x = x"
      with rf ct show ?thesis by (simp add: bound_def)
    next
      assume "\<exists>a z. x = a @ CHR '','' # z \<and> comma_to_point x = a @ CHR ''.'' # comma_to_point z"
      then obtain a z where x: "x = a @ CHR '','' # z"
        and cx: "comma_to_point x = a @ CHR ''.'' # comma_to_point z"
        by blast
      have "bound s = parseFloat (p @ CHR ''.'' # x)"
        by (simp add: bound_def rf)
      also have "\<dots> = parseFloat (p @ CHR ''.'' # a @ CHR '','' # z)"
        by (simp only: x)
      also have "\<dots> = parseFloat (p @ CHR ''.'' # a @ CHR ''.'' # comma_to_point z)"
        by (rule parseFloat_stop) (simp_all add: stop_def)
      also have "\<dots> = parseFloat (p @ CHR ''.'' # comma_to_point x)"
        by (simp only: cx)
      also have "\<dots> = parseFloat (comma_to_point s)"
        by (simp only: ct)
      finally show ?thesis .
    qed
  qed
qed

subsection \<open>What the host operations change\<close>

lemma schedule_draw_fields:
  "clock (schedule_draw st) = clock st"
  "inputs (schedule_draw st) = inputs st"
  "column_search (schedule_draw st) = column_search st"
  "next_handle (schedule_draw st) = Suc (next_handle st)"
  "tr_timeout (schedule_draw st) = Some (next_handle st)"
  by (simp_all add: schedule_draw_def setTimeout_def clearTimeout_def Let_def split: option.split)

lemma schedule_draw_timers:
  "timer_inv st \<Longrightarrow> timers (schedule_draw st) = [(next_handle st, clock st + 500)]"
  by (auto simp add: timer_inv_def schedule_draw_def setTimeout_def clearTimeout_def Let_def
      split: option.split list.splits)

lemma schedule_draw_draws:
  "draw_times (calls (schedule_draw st)) = draw_times (calls st)"
  by (simp add: schedule_draw_def setTimeout_def clearTimeout_def Let_def draw_times_def
      split: option.split)

lemma schedule_draw_searches:
  "search_times (calls (schedule_draw st)) = search_times (calls st)"
  by (simp add: schedule_draw_def setTimeout_def clearTimeout_def Let_def search_times_def
      split: option.split)

lemma schedule_draw_timers_set:
  "timers_set (calls (schedule_draw st)) = Suc (timers_set (calls st))"
  by (simp add: schedule_draw_def setTimeout_def clearTimeout_def Let_def timers_set_def
      split: option.split)

lemma schedule_draw_inv: "timer_inv st \<Longrightarrow> timer_inv (schedule_draw st)"
  by (simp add: timer_inv_def schedule_draw_timers schedule_draw_fields)

lemma set_val_read:
  "val (inputs (set_val i v st) j) = (if j = i then v else val (inputs st j))"
  "data_val (inputs (set_val i v st) j) = data_val (inputs st j)"
  by (simp_all add: set_val_def)

lemma deliver_text:
  "th ci = Some TextInput \<Longrightarrow>
   deliver serverSide th ci 0 v st =
     (if data_val (inputs st (ci, 0)) \<noteq> Some v then
        apply_val ci 0 v (text_val serverSide v) False (set_val (ci, 0) v st)
      else set_val (ci, 0) v st)"
  by (simp add: deliver_def has_input_def handler_def text_handler_def apply_val_def
      set_val_read Let_def)

lemma deliver_select:
  "th ci = Some (SelectInput opts) \<Longrightarrow>
   deliver serverSide th ci 0 v st =
     (if data_val (inputs st (ci, 0)) \<noteq> Some (escapeRegex v) then
        apply_val ci 0 (escapeRegex v) (select_val serverSide (escapeRegex v)) True
          (set_val (ci, 0) v st)
      else set_val (ci, 0) v st)"
  by (simp add: deliver_def has_input_def handler_def select_handler_def apply_val_def
      set_val_read Let_def)

lemma deliver_range:
  "th ci = Some NumberRange \<Longrightarrow> k < 2 \<Longrightarrow>
   deliver True th ci k v st =
     (if data_val (inputs st (ci, k)) \<noteq>
           Some (range_val (val (inputs (set_val (ci, k) v st) (ci, 0)))
                   (val (inputs (set_val (ci, k) v st) (ci, 1)))) then
        apply_val ci k
          (range_val (val (inputs (set_val (ci, k) v st) (ci, 0)))
             (val (inputs (set_val (ci, k) v st) (ci, 1))))
          (range_val (val (inputs (set_val (ci, k) v st) (ci, 0)))
             (val (inputs (set_val (ci, k) v st) (ci, 1)))) False
          (set_val (ci, k) v st)
      else set_val (ci, k) v st)"
  by (simp add: deliver_def has_input_def handler_def range_handler_def apply_val_def
      set_val_read Let_def)

lemma deliver_debounced:
  assumes "debounced serverSide th ci k"
  shows "deliver serverSide th ci k v st =
     (if effective serverSide th ci k v st then
        apply_val ci k (memo_val serverSide th ci (set_val (ci, k) v st))
          (pushed serverSide th ci (memo_val serverSide th ci (set_val (ci, k) v st)))
          (th ci \<noteq> Some TextInput \<and> th ci \<noteq> Some NumberRange) (set_val (ci, k) v st)
      else set_val (ci, k) v st)"
proof (cases "th ci")
  case None
  with assms show ?thesis by (simp add: debounced_def has_input_def)
next
  case (Some c)
  show ?thesis
  proof (cases c)
    case TextInput
    with Some assms have k: "k = 0" by (simp add: debounced_def has_input_def)
    show ?thesis
      using Some TextInput
      by (simp add: k deliver_text effective_def memo_val_def pushed_def set_val_read)
  next
    case (SelectInput opts)
    with Some assms have k: "k = 0" by (simp add: debounced_def has_input_def)
    show ?thesis
      using Some SelectInput
      by (simp add: k deliver_select effective_def memo_val_def pushed_def set_val_read)
  next
    case NumberRange
    with Some assms have k: "k < 2" and ss: "serverSide"
      by (simp_all add: debounced_def has_input_def)
    show ?thesis
      using Some NumberRange k
      by (simp add: ss deliver_range effective_def memo_val_def pushed_def)
  qed
qed


lemma timer_inv_cong:
  "timers s' = timers s \<Longrightarrow> tr_timeout s' = tr_timeout s \<Longrightarrow> next_handle s' = next_handle s
   \<Longrightarrow> clock s' = clock s \<Longrightarrow> timer_inv s' = timer_inv s"
  by (simp add: timer_inv_def cong: list.case_cong)

lemma set_val_frame:
  "timers (set_val i v st) = timers st"
  "tr_timeout (set_val i v st) = tr_timeout st"
  "next_handle (set_val i v st) = next_handle st"
  "clock (set_val i v st) = clock st"
  "calls (set_val i v st) = calls st"
  "column_search (set_val i v st) = column_search st"
  by (simp_all add: set_val_def)

lemma pre_schedule_frame:
  "timers (api_column_search ci p regex (set_data_val i m st)) = timers st"
  "tr_timeout (api_column_search ci p regex (set_data_val i m st)) = tr_timeout st"
  "next_handle (api_column_search ci p regex (set_data_val i m st)) = next_handle st"
  "clock (api_column_search ci p regex (set_data_val i m st)) = clock st"
  "calls (api_column_search ci p regex (set_data_val i m st)) = calls st @ [(clock st, Search ci p regex)]"
  "column_search (api_column_search ci p regex (set_data_val i m st)) = (column_search st)(ci := p)"
  "inputs (api_column_search ci p regex (set_data_val i m st)) =
     (inputs st)(i := (inputs st i)\<lparr>data_val := Some m\<rparr>)"
  by (simp_all add: api_column_search_def set_data_val_def)

lemma apply_val_fields:
  "clock (apply_val ci k m p regex st) = clock st"
  "column_search (apply_val ci k m p regex st) = (column_search st)(ci := p)"
  "inputs (apply_val ci k m p regex st) = (inputs st)((ci, k) := (inputs st (ci, k))\<lparr>data_val := Some m\<rparr>)"
  "next_handle (apply_val ci k m p regex st) = Suc (next_handle st)"
  "tr_timeout (apply_val ci k m p regex st) = Some (next_handle st)"
  by (simp_all add: apply_val_def schedule_draw_fields pre_schedule_frame)

lemma pre_schedule_inv:
  "timer_inv (api_column_search ci p regex (set_data_val i m st)) = timer_inv st"
  by (rule timer_inv_cong) (simp_all add: pre_schedule_frame)

lemma apply_val_inv: "timer_inv st \<Longrightarrow> timer_inv (apply_val ci k m p regex st)"
  by (simp add: apply_val_def schedule_draw_inv pre_schedule_inv)

lemma apply_val_timers:
  "timer_inv st \<Longrightarrow> timers (apply_val ci k m p regex st) = [(next_handle st, clock st + 500)]"
  by (simp add: apply_val_def schedule_draw_timers pre_schedule_inv pre_schedule_frame)

lemma apply_val_draws: "draw_times (calls (apply_val ci k m p regex st)) = draw_times (calls st)"
  by (simp add: apply_val_def schedule_draw_def setTimeout_def clearTimeout_def
      api_column_search_def set_data_val_def Let_def draw_times_def split: option.split)

lemma apply_val_searches:
  "search_times (calls (apply_val ci k m p regex st)) = search_times (calls st) @ [clock st]"
  by (simp add: apply_val_def schedule_draw_def setTimeout_def clearTimeout_def
      api_column_search_def set_data_val_def Let_def search_times_def split: option.split)

lemma apply_val_timers_set:
  "timers_set (calls (apply_val ci k m p regex st)) = Suc (timers_set (calls st))"
  by (simp add: apply_val_def schedule_draw_def setTimeout_def clearTimeout_def
      api_column_search_def set_data_val_def Let_def timers_set_def split: option.split)

lemma set_val_inv: "timer_inv (set_val i v st) = timer_inv st"
  by (rule timer_inv_cong) (simp_all add: set_val_frame)

lemma deliver_inv: "timer_inv st \<Longrightarrow> timer_inv (deliver serverSide th ci k v st)"
proof (cases "debounced serverSide th ci k")
  case True
  assume "timer_inv st"
  then show ?thesis
    by (simp add: deliver_debounced [OF True] apply_val_inv set_val_inv)
next
  case False
  assume inv: "timer_inv st"
  show ?thesis
  proof (cases "has_input th ci k")
    case True
    with False have "th ci = Some NumberRange" and "\<not> serverSide"
      by (auto simp add: debounced_def split: if_splits)
    then have "deliver serverSide th ci k v st = api_draw (set_val (ci, k) v st)"
      using True by (simp add: deliver_def handler_def)
    moreover have "timer_inv (api_draw (set_val (ci, k) v st)) = timer_inv st"
      by (rule timer_inv_cong) (simp_all add: api_draw_def set_val_def)
    ultimately show ?thesis using inv by simp
  next
    case False
    then show ?thesis using inv by (simp add: deliver_def)
  qed
qed

lemma elapse_inv: "timer_inv st \<Longrightarrow> timer_inv (elapse dt st)"
  by (auto simp add: timer_inv_def elapse_def split: list.splits)

lemma step_inv: "timer_inv st \<Longrightarrow> timer_inv (step serverSide th e st)"
  by (cases e) (simp_all add: deliver_inv elapse_inv)

lemma run_inv: "timer_inv st \<Longrightarrow> timer_inv (run serverSide th es st)"
  by (induction es arbitrary: st) (simp_all add: step_inv)

lemma idle_inv: "timers st = [] \<Longrightarrow> 0 < next_handle st \<Longrightarrow> timer_inv st"
  by (simp add: timer_inv_def)

lemma set_val_same: "val (inputs st i) = v \<Longrightarrow> set_val i v st = st"
  by (cases st) (auto simp add: set_val_def)

lemma apply_val_vals:
  "val (inputs (apply_val ci k m p regex st) j) = val (inputs st j)"
  "data_val (inputs (apply_val ci k m p regex st) (ci, k)) = Some m"
  by (simp_all add: apply_val_fields)

lemma memo_val_cong:
  "(\<And>j. val (inputs s' j) = val (inputs s j)) \<Longrightarrow> memo_val serverSide th ci s' = memo_val serverSide th ci s"
  by (simp add: memo_val_def cong: option.case_cong control.case_cong)

lemma set_val_twice: "set_val i v (set_val i v st) = set_val i v st"
  by (rule set_val_same) (simp add: set_val_read)

lemma deliver_twice:
  assumes "debounced serverSide th ci k"
  shows "deliver serverSide th ci k v (deliver serverSide th ci k v st) = deliver serverSide th ci k v st"
proof -
  let ?s = "set_val (ci, k) v st"
  let ?s1 = "deliver serverSide th ci k v st"
  have v1: "val (inputs ?s1 j) = val (inputs ?s j)" for j
    by (simp add: deliver_debounced [OF assms] apply_val_vals)
  then have same: "set_val (ci, k) v ?s1 = ?s1"
    by (intro set_val_same) (simp add: set_val_read)
  have memo: "memo_val serverSide th ci ?s1 = memo_val serverSide th ci ?s"
    by (rule memo_val_cong) (rule v1)
  have d1: "data_val (inputs ?s1 (ci, k)) = Some (memo_val serverSide th ci ?s)"
    by (simp add: deliver_debounced [OF assms] apply_val_vals effective_def set_val_read)
  have "\<not> effective serverSide th ci k v ?s1"
    by (simp add: effective_def same memo d1)
  then show ?thesis
    by (subst deliver_debounced [OF assms, of v ?s1]) (simp add: same)
qed

lemma elapse_fields:
  "clock (elapse dt st) = clock st + dt"
  "inputs (elapse dt st) = inputs st"
  "column_search (elapse dt st) = column_search st"
  "next_handle (elapse dt st) = next_handle st"
  "tr_timeout (elapse dt st) = tr_timeout st"
  by (simp_all add: elapse_def)

lemma elapse_early:
  assumes "map snd (timers st) = [due]" and "clock st + dt < due"
  shows "timers (elapse dt st) = timers st" and "calls (elapse dt st) = calls st"
  using assms by (auto simp add: elapse_def)

lemma elapse_idle:
  assumes "timers st = []"
  shows "timers (elapse dt st) = []" and "calls (elapse dt st) = calls st"
  using assms by (simp_all add: elapse_def)

lemma elapse_due:
  assumes "map snd (timers st) = [due]" and "due \<le> clock st + dt"
  shows "timers (elapse dt st) = []"
    and "draw_times (calls (elapse dt st)) = draw_times (calls st) @ [due]"
    and "search_times (calls (elapse dt st)) = search_times (calls st)"
  using assms by (auto simp add: elapse_def draw_times_def search_times_def)

lemma deliver_effective:
  assumes "debounced serverSide th ci k" and "effective serverSide th ci k v st" and "timer_inv st"
  shows "map snd (timers (deliver serverSide th ci k v st)) = [clock st + 500]"
    and "clock (deliver serverSide th ci k v st) = clock st"
    and "draw_times (calls (deliver serverSide th ci k v st)) = draw_times (calls st)"
    and "search_times (calls (deliver serverSide th ci k v st)) = search_times (calls st) @ [clock st]"
  using assms
  by (simp_all add: deliver_debounced apply_val_timers apply_val_fields apply_val_draws
      apply_val_searches set_val_inv set_val_frame)

lemma burst_armed:
  assumes "timer_inv st"
    and "map snd (timers st) = [clock st + 500]"
    and "effective_burst serverSide th es st"
    and "list_all (\<lambda>e. fst e < 500) es"
  shows "timer_inv (burst serverSide th es st)
    \<and> map snd (timers (burst serverSide th es st)) = [last (clock st # edit_times (clock st) es) + 500]
    \<and> clock (burst serverSide th es st) = last (clock st # edit_times (clock st) es)
    \<and> draw_times (calls (burst serverSide th es st)) = draw_times (calls st)
    \<and> search_times (calls (burst serverSide th es st))
        = search_times (calls st) @ edit_times (clock st) es"
  using assms
proof (induction es arbitrary: st)
  case Nil
  then show ?case by simp
next
  case (Cons e es)
  obtain gap ci k v where e: "e = (gap, ci, k, v)"
    by (cases e) auto
  let ?s1 = "elapse gap st"
  let ?s2 = "deliver serverSide th ci k v ?s1"
  from Cons.prems e have gap: "gap < 500" and rest: "list_all (\<lambda>e. fst e < 500) es"
    and deb: "debounced serverSide th ci k" and eff: "effective serverSide th ci k v ?s1"
    and eb: "effective_burst serverSide th es ?s2"
    by simp_all
  have inv1: "timer_inv ?s1"
    using Cons.prems(1) by (rule elapse_inv)
  have calls1: "calls ?s1 = calls st"
    using Cons.prems(2) gap by (intro elapse_early(2) [where due = "clock st + 500"]) simp_all
  have inv2: "timer_inv ?s2"
    using inv1 by (rule deliver_inv)
  have clock2: "clock ?s2 = clock st + gap"
    by (simp add: deliver_effective(2) [OF deb eff inv1] elapse_fields)
  have armed2: "map snd (timers ?s2) = [clock ?s2 + 500]"
    by (simp add: deliver_effective(1) [OF deb eff inv1] clock2 elapse_fields)
  have draws2: "draw_times (calls ?s2) = draw_times (calls st)"
    by (simp add: deliver_effective(3) [OF deb eff inv1] calls1)
  have searches2: "search_times (calls ?s2) = search_times (calls st) @ [clock st + gap]"
    by (simp add: deliver_effective(4) [OF deb eff inv1] calls1 elapse_fields)
  from Cons.IH [OF inv2 armed2 eb rest] show ?case
    by (simp add: e clock2 draws2 searches2)
qed








subsection \<open>The search slot of a remote number range\<close>











text \<open>The definitions that evaluate a delivery on a concrete state.\<close>

lemmas eval_defs = deliver_def has_input_def handler_def text_handler_def select_handler_def
  range_handler_def set_val_def set_data_val_def api_column_search_def api_draw_def
  schedule_draw_def setTimeout_def clearTimeout_def elapse_def init_state_def Let_def
  range_val_def text_val_def select_val_def effective_def debounced_def memo_val_def
  draw_times_def search_times_def timers_set_def

subsection \<open>The branches the claims single out\<close>

text \<open>The row predicate rejects every row of a table other than its own, and is the range
  evaluator on the rows of its own table.\<close>

lemma range_search_scope:
  "range_search ci nTable st settings_nTable data =
     (settings_nTable = nTable
      \<and> matches (val (inputs st (ci, 0))) (val (inputs st (ci, 1))) (cell_text data ci))"
  by (simp add: range_search_def)

text \<open>In a page without a variable \<^verbatim>\<open>value\<close>, a visible searchable column whose type is none
  of the three ends the loop over the columns with a \<^verbatim>\<open>ReferenceError\<close>.\<close>

lemma render_column_unknown:
  assumes "visible c" and "bSearchable c" and "orbiaColumnFilter c = Some item"
    and "ftype item \<noteq> ''text''" and "ftype item \<noteq> ''select''" and "ftype item \<noteq> ''number-range''"
  shows "render_column browser serverSide nTable ci c r = Inl (ReferenceError ''value'')"
  using assms by (simp add: render_column_def item_of_def default_branch_def browser_def)

lemma render_columns_unknown:
  assumes "visible c" and "bSearchable c" and "orbiaColumnFilter c = Some item"
    and "ftype item \<noteq> ''text''" and "ftype item \<noteq> ''select''" and "ftype item \<noteq> ''number-range''"
  shows "render_columns browser serverSide nTable ci (c # cs) r = Inl (ReferenceError ''value'')"
  using render_column_unknown [OF assms] by simp

text \<open>What the select handler pushes: the escaped key with \<^verbatim>\<open>equals:\<close> in front in remote
  mode, the escaped key between \<^verbatim>\<open>^\<close> and \<^verbatim>\<open>$\<close> in local mode, nothing for the empty key.
  The escaped key is the key itself when the key holds no metacharacter.\<close>

lemma escapeRegex_plain: "list_all (\<lambda>c. \<not> regex_meta c) k \<Longrightarrow> escapeRegex k = k"
  by (induction k) (simp_all add: escapeRegex_def)

lemma escapeRegex_empty: "escapeRegex k = [] \<longleftrightarrow> k = []"
  by (cases k) (simp_all add: escapeRegex_def)

lemma select_pushes:
  assumes "th ci = Some (SelectInput opts)"
    and "data_val (inputs st (ci, 0)) \<noteq> Some (escapeRegex k)"
  shows "column_search (deliver serverSide th ci 0 k st) ci =
     (if k = [] then []
      else if serverSide then ''equals:'' @ escapeRegex k
      else ''^'' @ escapeRegex k @ ''$'')"
  using assms
  by (simp add: deliver_select apply_val_fields select_val_def escapeRegex_empty)

lemma js_le_NaN_right: "js_le x NaN = False"
  by (cases x) simp_all

lemma parseFloat_0: "parseFloat ''0'' = Fin 0"
  by code_simp

lemma parseFloat_no_break_space:
  "parseFloat (CHR 0xA0 # ''5'') = Fin 5 \<and> matches ''1'' ''10'' (CHR 0xA0 # ''5'')
   \<and> matches (CHR 0xA0 # ''1'') ''10'' ''5''"
  by code_simp

subsection \<open>The row predicate\<close>

text \<open>
  Claim C1. A local-mode number-range predicate evaluated for a table other than the one
  it was built for should accept the row. The predicate built for table 1 is evaluated
  here for a row of table 2, with both bounds empty: it rejects the row.
\<close>

theorem range_search_other_table:
  "range_search 0 1 (init_state (\<lambda>ci. Some NumberRange)) 2 [''5''] = False"
  by (simp add: range_search_def)

text \<open>
  Claim C4. The evaluator parses the two bounds after replacing the comma by a point
  (replacing the first comma, as the code does, or every comma gives the same number)
  and the cell as it is, an unparseable cell counting as 0. It accepts exactly when both
  bounds are not-a-number, or only the lower one is and the value is at most the upper
  bound, or only the upper one is and the lower bound is at most the value, or both are
  numbers and the value lies between them. The five examples of the specification follow.
\<close>

theorem matches_range:
  "(matches from to cell \<longleftrightarrow>
      (isNaN (bound from) \<and> isNaN (bound to))
      \<or> (isNaN (bound from) \<and> \<not> isNaN (bound to) \<and> js_le (cell_value cell) (bound to))
      \<or> (\<not> isNaN (bound from) \<and> isNaN (bound to) \<and> js_le (bound from) (cell_value cell))
      \<or> (\<not> isNaN (bound from) \<and> \<not> isNaN (bound to)
          \<and> js_le (bound from) (cell_value cell) \<and> js_le (cell_value cell) (bound to)))
   \<and> bound from = parseFloat (comma_to_point from)
   \<and> bound to = parseFloat (comma_to_point to)
   \<and> \<not> isNaN (cell_value cell)
   \<and> (isNaN (parseFloat cell) \<longrightarrow> matches from to cell = matches from to ''0'')
   \<and> (\<not> isNaN (parseFloat cell) \<longrightarrow> cell_value cell = parseFloat cell)
   \<and> bound ''1,5'' = Fin (3 / 2)
   \<and> matches '''' '''' ''5'' \<and> \<not> matches ''1'' '''' ''0'' \<and> matches ''1'' ''10'' ''5''
   \<and> matches ''1'' ''10'' ''10.0'' \<and> matches ''1,5'' '''' ''2''"
proof -
  have iff: "matches from to cell \<longleftrightarrow>
      (isNaN (bound from) \<and> isNaN (bound to))
      \<or> (isNaN (bound from) \<and> \<not> isNaN (bound to) \<and> js_le (cell_value cell) (bound to))
      \<or> (\<not> isNaN (bound from) \<and> isNaN (bound to) \<and> js_le (bound from) (cell_value cell))
      \<or> (\<not> isNaN (bound from) \<and> \<not> isNaN (bound to)
          \<and> js_le (bound from) (cell_value cell) \<and> js_le (cell_value cell) (bound to))"
    by (auto simp add: matches_def Let_def isNaN_def js_le_NaN_right)
  have num: "\<not> isNaN (cell_value cell)"
    by (simp add: cell_value_def or_zero_def isNaN_def)
  have zero: "isNaN (parseFloat cell) \<longrightarrow> matches from to cell = matches from to ''0''"
    by (simp add: matches_def cell_value_def or_zero_def isNaN_def parseFloat_0)
  have same: "\<not> isNaN (parseFloat cell) \<longrightarrow> cell_value cell = parseFloat cell"
    by (simp add: cell_value_def or_zero_def isNaN_def)
  have comma: "bound ''1,5'' = Fin (3 / 2)"
    by code_simp
  have ex: "matches '''' '''' ''5'' \<and> \<not> matches ''1'' '''' ''0'' \<and> matches ''1'' ''10'' ''5''
      \<and> matches ''1'' ''10'' ''10.0'' \<and> matches ''1,5'' '''' ''2''"
    by code_simp
  note norm = bound_all_commas [of "from"] bound_all_commas [of "to"]
  from iff norm num zero same comma ex show ?thesis by blast
qed

theorem matches_range_witness:
  "isNaN (parseFloat ''abc'') \<and> matches ''1'' ''10'' ''abc'' = matches ''1'' ''10'' ''0''
   \<and> \<not> matches ''1'' ''10'' ''abc''"
proof -
  have a: "isNaN (parseFloat ''abc'')" by code_simp
  have b: "\<not> matches ''1'' ''10'' ''0''" by code_simp
  from matches_range [of "''1''" "''10''" "''abc''"] a b show ?thesis by blast
qed

subsection \<open>Setup\<close>

text \<open>
  Claim C2. A column with an unrecognised filter type should get a console warning and
  no control, and setup should go on with the other columns. In a page that declares no
  variable \<^verbatim>\<open>value\<close>, setup of a table whose first column has the type \<^verbatim>\<open>date\<close> and whose
  second column is a text filter ends with a \<^verbatim>\<open>ReferenceError\<close>: no warning is written
  and no row is built.
\<close>

theorem unknown_type_throws:
  "OrbiaColumnFilter browser False 0
     [\<lparr>orbiaColumnFilter = Some \<lparr>ftype = ''date'', fvalues = []\<rparr>, bSearchable = True, visible = True\<rparr>,
      \<lparr>orbiaColumnFilter = Some \<lparr>ftype = ''text'', fvalues = []\<rparr>, bSearchable = True, visible = True\<rparr>]
   = Inl (ReferenceError ''value'')"
  by (simp add: OrbiaColumnFilter_def item_of_def render_column_def default_branch_def browser_def)

subsection \<open>Encodings\<close>

text \<open>
  Claim C3. In remote mode the select key \<^verbatim>\<open>a.b\<close> should be pushed as \<^verbatim>\<open>equals:a.b\<close>. The
  handler escapes the key before it looks at the mode, so the search slot receives
  \<^verbatim>\<open>equals:a\.b\<close>.
\<close>

theorem select_remote_escaped:
  "column_search
     (deliver True (\<lambda>ci. Some (SelectInput [([], []), (''a.b'', ''A'')])) 0 0 ''a.b''
        (init_state (\<lambda>ci. Some (SelectInput [([], []), (''a.b'', ''A'')])))) 0
   = ''equals:a'' @ [CHR 0x5C] @ ''.b''"
  by (simp add: deliver_def has_input_def handler_def select_handler_def set_val_def init_state_def
      escapeRegex_def regex_meta_def select_val_def schedule_draw_def setTimeout_def
      api_column_search_def set_data_val_def Let_def)

text \<open>
  Claim C6. A non-empty text value \<open>v\<close> is encoded as \<^verbatim>\<open>like:\<close> followed by \<open>v\<close> in remote
  mode and as \<open>v\<close> itself in local mode, the empty value as the empty predicate; a
  delivery that differs from the memo pushes that encoding to the column's search slot.
\<close>

theorem text_encoding:
  "(v \<noteq> [] \<longrightarrow> text_val True v = ''like:'' @ v)
   \<and> text_val False v = v
   \<and> text_val serverSide [] = []
   \<and> (th ci = Some TextInput \<and> data_val (inputs st (ci, 0)) \<noteq> Some v \<longrightarrow>
        column_search (deliver serverSide th ci 0 v st) ci = text_val serverSide v)"
  by (simp add: text_val_def deliver_text apply_val_fields set_val_frame)

theorem text_encoding_witness:
  "''ab'' \<noteq> [] \<and> text_val True ''ab'' = ''like:ab''
   \<and> data_val (inputs (init_state (\<lambda>ci. Some TextInput)) (0, 0)) \<noteq> Some ''ab''
   \<and> column_search (deliver True (\<lambda>ci. Some TextInput) 0 0 ''ab'' (init_state (\<lambda>ci. Some TextInput))) 0
       = ''like:ab''"
  using text_encoding [of "''ab''" True "\<lambda>ci. Some TextInput" 0 "init_state (\<lambda>ci. Some TextInput)"]
  by (simp add: init_state_def)




subsection \<open>Duplicate deliveries\<close>

text \<open>
  Claim C7 speaks of every filter input. The two inputs of a number range in local mode
  have no comparison with a memo: the same value delivered twice calls the host's redraw
  twice, with no search-slot update and no timer.
\<close>

theorem duplicate_delivery_local_range:
  "calls (deliver False (\<lambda>ci. Some NumberRange) 0 0 ''5''
      (deliver False (\<lambda>ci. Some NumberRange) 0 0 ''5'' (init_state (\<lambda>ci. Some NumberRange))))
     = [(0, Draw), (0, Draw)]
   \<and> calls (deliver False (\<lambda>ci. Some NumberRange) 0 0 ''5'' (init_state (\<lambda>ci. Some NumberRange)))
     = [(0, Draw)]"
  by (simp add: eval_defs)

text \<open>
  Claim C7, for the debounced inputs (text, select, number range in remote mode). When a
  delivery differs from the memo, delivering the same value once more changes nothing,
  neither the state nor the host calls made: the two deliveries together make exactly
  one search-slot update, at the time of the delivery, and set exactly one timer.
\<close>

theorem duplicate_delivery:
  assumes "debounced serverSide th ci k" and "effective serverSide th ci k v st"
  shows "deliver serverSide th ci k v (deliver serverSide th ci k v st) = deliver serverSide th ci k v st
    \<and> search_times (calls (deliver serverSide th ci k v (deliver serverSide th ci k v st)))
        = search_times (calls st) @ [clock st]
    \<and> timers_set (calls (deliver serverSide th ci k v (deliver serverSide th ci k v st)))
        = Suc (timers_set (calls st))"
  using assms
  by (simp add: deliver_twice)
     (simp add: deliver_debounced apply_val_searches apply_val_timers_set set_val_frame)

theorem duplicate_delivery_witness:
  "debounced True (\<lambda>ci. Some TextInput) 0 0
   \<and> effective True (\<lambda>ci. Some TextInput) 0 0 ''ab'' (init_state (\<lambda>ci. Some TextInput))
   \<and> search_times (calls (deliver True (\<lambda>ci. Some TextInput) 0 0 ''ab''
        (deliver True (\<lambda>ci. Some TextInput) 0 0 ''ab'' (init_state (\<lambda>ci. Some TextInput))))) = [0]
   \<and> timers_set (calls (deliver True (\<lambda>ci. Some TextInput) 0 0 ''ab''
        (deliver True (\<lambda>ci. Some TextInput) 0 0 ''ab'' (init_state (\<lambda>ci. Some TextInput))))) = 1"
proof -
  have d: "debounced True (\<lambda>ci. Some TextInput) 0 0"
    by (simp add: debounced_def has_input_def)
  have e: "effective True (\<lambda>ci. Some TextInput) 0 0 ''ab'' (init_state (\<lambda>ci. Some TextInput))"
    by (simp add: effective_def init_state_def set_val_def)
  have c: "calls (init_state (\<lambda>ci. Some TextInput)) = []" "clock (init_state (\<lambda>ci. Some TextInput)) = 0"
    by (simp_all add: init_state_def)
  from duplicate_delivery [OF d e]
  have "search_times (calls (deliver True (\<lambda>ci. Some TextInput) 0 0 ''ab''
        (deliver True (\<lambda>ci. Some TextInput) 0 0 ''ab'' (init_state (\<lambda>ci. Some TextInput)))))
        = search_times (calls (init_state (\<lambda>ci. Some TextInput))) @ [clock (init_state (\<lambda>ci. Some TextInput))]
    \<and> timers_set (calls (deliver True (\<lambda>ci. Some TextInput) 0 0 ''ab''
        (deliver True (\<lambda>ci. Some TextInput) 0 0 ''ab'' (init_state (\<lambda>ci. Some TextInput)))))
        = Suc (timers_set (calls (init_state (\<lambda>ci. Some TextInput))))"
    by blast
  with d e show ?thesis
    by (simp add: c search_times_def timers_set_def)
qed

subsection \<open>Bursts\<close>

text \<open>
  Claim C8 speaks of every filter input and names the binding of the local-mode number
  range. Two edits of a local-mode bound, 100 time units apart, give two redraws, at the
  times of the edits, and none 500 time units after the last edit.
\<close>

theorem burst_local_range:
  "draw_times (calls (elapse 500 (burst False (\<lambda>ci. Some NumberRange)
      [(0, 0, 0, ''1''), (100, 0, 0, ''12'')] (init_state (\<lambda>ci. Some NumberRange))))) = [0, 100]
   \<and> search_times (calls (elapse 500 (burst False (\<lambda>ci. Some NumberRange)
      [(0, 0, 0, ''1''), (100, 0, 0, ''12'')] (init_state (\<lambda>ci. Some NumberRange))))) = []"
  by (simp add: eval_defs)

text \<open>
  Claim C8, for the debounced inputs of a filter row with no timer pending. When every
  edit of a burst differs from the memo of its input and every edit but the first comes
  less than 500 time units after the one before, no redraw happens during the burst,
  exactly one happens afterwards, 500 time units after the last edit, and the search
  slot is updated at the time of every edit.
\<close>

theorem burst_one_redraw:
  assumes "timers st = []" and "0 < next_handle st"
    and "es \<noteq> []"
    and "effective_burst serverSide th es st"
    and "list_all (\<lambda>e. fst e < 500) (tl es)"
    and "500 \<le> d"
  shows "draw_times (calls (burst serverSide th es st)) = draw_times (calls st)
    \<and> draw_times (calls (elapse d (burst serverSide th es st)))
        = draw_times (calls st) @ [last (edit_times (clock st) es) + 500]
    \<and> search_times (calls (elapse d (burst serverSide th es st)))
        = search_times (calls st) @ edit_times (clock st) es
    \<and> timers (elapse d (burst serverSide th es st)) = []"
proof -
  from assms(3) obtain gap ci k v es' where es: "es = (gap, ci, k, v) # es'"
    by (cases es) auto
  let ?s1 = "elapse gap st"
  let ?s2 = "deliver serverSide th ci k v ?s1"
  let ?s3 = "burst serverSide th es' ?s2"
  from assms es have rest: "list_all (\<lambda>e. fst e < 500) es'"
    and deb: "debounced serverSide th ci k" and eff: "effective serverSide th ci k v ?s1"
    and eb: "effective_burst serverSide th es' ?s2"
    by simp_all
  have inv0: "timer_inv st"
    using assms(1,2) by (rule idle_inv)
  have inv1: "timer_inv ?s1"
    using inv0 by (rule elapse_inv)
  have calls1: "calls ?s1 = calls st"
    using assms(1) by (rule elapse_idle)
  have inv2: "timer_inv ?s2"
    using inv1 by (rule deliver_inv)
  have clock2: "clock ?s2 = clock st + gap"
    by (simp add: deliver_effective(2) [OF deb eff inv1] elapse_fields)
  have armed2: "map snd (timers ?s2) = [clock ?s2 + 500]"
    by (simp add: deliver_effective(1) [OF deb eff inv1] clock2 elapse_fields)
  have draws2: "draw_times (calls ?s2) = draw_times (calls st)"
    by (simp add: deliver_effective(3) [OF deb eff inv1] calls1)
  have searches2: "search_times (calls ?s2) = search_times (calls st) @ [clock st + gap]"
    by (simp add: deliver_effective(4) [OF deb eff inv1] calls1 elapse_fields)
  note b = burst_armed [OF inv2 armed2 eb rest]
  have last: "last (clock ?s2 # edit_times (clock ?s2) es') = last (edit_times (clock st) es)"
    by (simp add: es clock2)
  note b' = b [unfolded last]
  from b' have armed3: "map snd (timers ?s3) = [last (edit_times (clock st) es) + 500]"
    by blast
  from b' have clock3: "clock ?s3 = last (edit_times (clock st) es)"
    by blast
  from b' have draws3: "draw_times (calls ?s3) = draw_times (calls st)"
    by (simp only: draws2)
  from b' have "search_times (calls ?s3) = search_times (calls ?s2) @ edit_times (clock ?s2) es'"
    by blast
  then have searches3: "search_times (calls ?s3) = search_times (calls st) @ edit_times (clock st) es"
    by (simp add: searches2 clock2 es)
  have due: "last (edit_times (clock st) es) + 500 \<le> clock ?s3 + d"
    using assms(6) by (simp add: clock3)
  have s3: "burst serverSide th es st = ?s3"
    by (simp add: es)
  show ?thesis
    unfolding s3
    using elapse_due [OF armed3 due] draws3 searches3 by simp
qed

theorem burst_one_redraw_witness:
  "effective_burst True (\<lambda>ci. Some NumberRange) [(0, 0, 0, ''3''), (100, 0, 1, ''9'')]
      (init_state (\<lambda>ci. Some NumberRange))
   \<and> draw_times (calls (elapse 500 (burst True (\<lambda>ci. Some NumberRange)
        [(0, 0, 0, ''3''), (100, 0, 1, ''9'')] (init_state (\<lambda>ci. Some NumberRange))))) = [600]
   \<and> search_times (calls (elapse 500 (burst True (\<lambda>ci. Some NumberRange)
        [(0, 0, 0, ''3''), (100, 0, 1, ''9'')] (init_state (\<lambda>ci. Some NumberRange))))) = [0, 100]
   \<and> column_search (burst True (\<lambda>ci. Some NumberRange)
        [(0, 0, 0, ''3'')] (init_state (\<lambda>ci. Some NumberRange))) 0 = ''range:3~''
   \<and> column_search (burst True (\<lambda>ci. Some NumberRange)
        [(0, 0, 0, ''3''), (100, 0, 1, ''9'')] (init_state (\<lambda>ci. Some NumberRange))) 0 = ''range:3~9''"
proof -
  have e: "effective_burst True (\<lambda>ci. Some NumberRange) [(0, 0, 0, ''3''), (100, 0, 1, ''9'')]
      (init_state (\<lambda>ci. Some NumberRange))"
    by (simp add: eval_defs)
  have i: "timers (init_state (\<lambda>ci. Some NumberRange)) = []"
    "0 < next_handle (init_state (\<lambda>ci. Some NumberRange))"
    "calls (init_state (\<lambda>ci. Some NumberRange)) = []"
    "clock (init_state (\<lambda>ci. Some NumberRange)) = 0"
    by (simp_all add: init_state_def)
  have s: "column_search (burst True (\<lambda>ci. Some NumberRange)
        [(0, 0, 0, ''3'')] (init_state (\<lambda>ci. Some NumberRange))) 0 = ''range:3~''"
    "column_search (burst True (\<lambda>ci. Some NumberRange)
        [(0, 0, 0, ''3''), (100, 0, 1, ''9'')] (init_state (\<lambda>ci. Some NumberRange))) 0 = ''range:3~9''"
    by (simp_all add: eval_defs)
  from burst_one_redraw [OF i(1) i(2) _ e, of 500] e s show ?thesis
    by (simp add: i draw_times_def search_times_def)
qed

subsection \<open>Timers\<close>

text \<open>
  Claim C9. From a state with no pending timer, whatever is delivered and however time
  passes, at most one redraw timer of the row is pending; a pending timer is due within
  500 time units and is never overdue; and scheduling a redraw leaves exactly the new
  timer pending, due 500 time units later.
\<close>

theorem one_pending_timer:
  assumes "timers st = []" and "0 < next_handle st"
  shows "length (timers (run serverSide th es st)) \<le> 1
    \<and> list_all (\<lambda>t. clock (run serverSide th es st) < snd t
                    \<and> snd t \<le> clock (run serverSide th es st) + 500)
         (timers (run serverSide th es st))
    \<and> timers (schedule_draw (run serverSide th es st))
        = [(next_handle (run serverSide th es st), clock (run serverSide th es st) + 500)]"
proof -
  have inv: "timer_inv (run serverSide th es st)"
    using assms by (simp add: run_inv idle_inv)
  then have "length (timers (run serverSide th es st)) \<le> 1"
    by (auto simp add: timer_inv_def split: list.splits)
  moreover from inv have "list_all (\<lambda>t. clock (run serverSide th es st) < snd t
                    \<and> snd t \<le> clock (run serverSide th es st) + 500)
         (timers (run serverSide th es st))"
    by (auto simp add: timer_inv_def split: list.splits)
  moreover note schedule_draw_timers [OF inv]
  ultimately show ?thesis by blast
qed

theorem one_pending_timer_witness:
  "timers (init_state (\<lambda>ci. Some TextInput)) = []
   \<and> 0 < next_handle (init_state (\<lambda>ci. Some TextInput))
   \<and> length (timers (run True (\<lambda>ci. Some TextInput)
        [Deliver 0 0 ''a'', Elapse 100, Deliver 0 0 ''ab''] (init_state (\<lambda>ci. Some TextInput)))) \<le> 1"
  using one_pending_timer [of "init_state (\<lambda>ci. Some TextInput)" True "\<lambda>ci. Some TextInput"
      "[Deliver 0 0 ''a'', Elapse 100, Deliver 0 0 ''ab'']"]
  by (simp add: init_state_def)

subsection \<open>Local number range\<close>

text \<open>
  Claim C10. In local mode a delivery to either input of a number range leaves every
  search slot and the timers of the row as they are and calls the host's redraw at once.
\<close>

theorem local_range_immediate:
  "th ci = Some NumberRange \<and> k < 2 \<longrightarrow>
     column_search (deliver False th ci k v st) = column_search st
     \<and> calls (deliver False th ci k v st) = calls st @ [(clock st, Draw)]
     \<and> timers (deliver False th ci k v st) = timers st
     \<and> tr_timeout (deliver False th ci k v st) = tr_timeout st"
  by (simp add: deliver_def has_input_def handler_def api_draw_def set_val_def)

theorem local_range_immediate_witness:
  "calls (deliver False (\<lambda>ci. Some NumberRange) 0 1 ''7'' (init_state (\<lambda>ci. Some NumberRange)))
     = [(0, Draw)]
   \<and> column_search (deliver False (\<lambda>ci. Some NumberRange) 0 1 ''7'' (init_state (\<lambda>ci. Some NumberRange)))
     = column_search (init_state (\<lambda>ci. Some NumberRange))"
  using local_range_immediate [of "\<lambda>ci. Some NumberRange" 0 1 "''7''" "init_state (\<lambda>ci. Some NumberRange)"]
  by (simp add: init_state_def)

end
